theory Spec2Isabelle
  imports Main "HOL-Library.Word"
begin

unbundle bit_operations_syntax

section \<open>JavaScript arithmetic on integers\<close>

text \<open>
  The program is TypeScript compiled to JavaScript. Every number that the
  simulation handles is an integer (cell indices, coordinates, cell values), so
  numbers are modelled as \<open>int\<close>; a double represents integers exactly up to
  \<open>2 ^ 53\<close>. Three operators differ from their HOL namesakes and are written out:
  \<open>%\<close> takes the sign of the dividend, \<open>/\<close> followed by \<open>| 0\<close> truncates
  towards zero and then wraps to 32 bits, and a read outside a typed array gives
  \<open>undefined\<close>, modelled as \<open>None\<close>.

  With a divisor \<open>0\<close> JavaScript's \<open>%\<close> and \<open>/\<close> give \<open>NaN\<close> or an infinity,
  which \<open>int\<close> does not represent: the theorems below are about boards with
  \<open>cols > 0\<close> and \<open>rows > 0\<close>.
\<close>

definition js_rem :: "int \<Rightarrow> int \<Rightarrow> int" where
  \<comment> \<open>\<open>a % b\<close>: the remainder of the division truncated towards zero.\<close>
  "js_rem a b = sgn a * (\<bar>a\<bar> mod \<bar>b\<bar>)"

definition js_quot :: "int \<Rightarrow> int \<Rightarrow> int" where
  \<comment> \<open>The integer part of \<open>a / b\<close>, rounded towards zero.\<close>
  "js_quot a b = sgn a * sgn b * (\<bar>a\<bar> div \<bar>b\<bar>)"

definition to_int32 :: "int \<Rightarrow> int" where
  \<comment> \<open>\<open>ToInt32\<close>, applied by the bitwise operators \<open>|\<close> and \<open>&\<close>.\<close>
  "to_int32 v = (v + 2147483648) mod 4294967296 - 2147483648"

definition js_add :: "int option \<Rightarrow> int option \<Rightarrow> int option" where
  \<comment> \<open>\<open>a + b\<close> where an operand may be \<open>undefined\<close>: the sum is then \<open>NaN\<close>,
      which equals no number and is not greater than 0, as \<open>None\<close> here.\<close>
  "js_add a b = (case a of None \<Rightarrow> None
                 | Some x \<Rightarrow> (case b of None \<Rightarrow> None | Some y \<Rightarrow> Some (x + y)))"

definition js_pos :: "int option \<Rightarrow> bool" where
  \<comment> \<open>\<open>v > 0\<close>; false for \<open>undefined\<close>.\<close>
  "js_pos v = (case v of None \<Rightarrow> False | Some x \<Rightarrow> 0 < x)"

section \<open>The board: \<open>life.Model\<close>\<close>

text \<open>
  \<open>Changes\<close> is the interface of \<open>life.common.ts\<close>. \<open>Model\<close> has the fields of
  the class; the \<open>Int8Array\<close> \<open>grid\<close> is a list of \<open>int\<close>, since the only values
  ever stored are \<open>v & 1\<close>, \<open>1\<close> and \<open>0\<close>, which an \<open>Int8\<close> holds unchanged.
  The field \<open>raised\<close> stands for the signal \<open>didChange\<close> of the model: it lists
  the payloads \<open>didChange.raise(this, changes)\<close> was called with, oldest first.
\<close>

record Changes =
  born :: "int list"
  survived :: "int list"
  died :: "int list"

record Model =
  grid :: "int list"
  alive :: "int list"
  rows :: int
  cols :: int
  raised :: "Changes list"

datatype error = RangeError | TypeError

definition grid_read :: "int list \<Rightarrow> int \<Rightarrow> int option" where
  \<comment> \<open>\<open>grid[i]\<close> on a typed array: \<open>undefined\<close> outside \<open>[0, length)\<close>.\<close>
  "grid_read g i = (if 0 \<le> i \<and> i < int (length g) then Some (g ! nat i) else None)"

definition grid_write :: "int list \<Rightarrow> int \<Rightarrow> int \<Rightarrow> int list" where
  \<comment> \<open>\<open>grid[i] = v\<close> on a typed array: a write outside \<open>[0, length)\<close> is ignored.\<close>
  "grid_write g i v = (if 0 \<le> i \<and> i < int (length g) then g[nat i := v] else g)"

definition new_Model :: "int \<Rightarrow> int \<Rightarrow> int \<Rightarrow> error + Model" where
  \<comment> \<open>The constructor. \<open>new Int8Array(n)\<close> throws a \<open>RangeError\<close> for a negative
      \<open>n\<close>, for an \<open>n\<close> above \<open>2 ^ 53 - 1\<close>, and for an \<open>n\<close> above the largest
      length the engine allocates; that length depends on the engine and is the
      parameter \<open>lim\<close>. Up to \<open>2 ^ 53\<close> the product \<open>cols * rows\<close> is exact.\<close>
  "new_Model lim c r =
     (if c * r < 0 \<or> lim < c * r \<or> 9007199254740991 < c * r then Inl RangeError
      else Inr \<lparr>grid = replicate (nat (c * r)) 0, alive = [], rows = r, cols = c,
                raised = []\<rparr>)"

definition indexFor :: "Model \<Rightarrow> int \<Rightarrow> int \<Rightarrow> int" where
  "indexFor m x y =
     (let c = cols m; r = rows m
      in js_rem (r + y) r * c + js_rem (c + x) c)"

definition get :: "Model \<Rightarrow> int \<Rightarrow> bool \<times> Model" where
  \<comment> \<open>The result and the model after the call.\<close>
  "get m index = (js_pos (grid_read (grid m) index), m)"

fun init_each :: "int list \<Rightarrow> int \<Rightarrow> int list \<times> int list \<Rightarrow> int list \<times> int list" where
  \<comment> \<open>The \<open>forEach\<close> of \<open>init\<close> from position \<open>i\<close> on, over the grid and the live list.\<close>
  "init_each [] i (g, a) = (g, a)"
| "init_each (v # vs) i (g, a) =
     (let val = to_int32 v AND 1
      in init_each vs (i + 1) (grid_write g i val, if 0 < val then a @ [i] else a))"

definition init :: "Model \<Rightarrow> int list \<Rightarrow> Changes \<times> Model" where
  "init m vals =
     (let (g, a) = init_each vals 0 (grid m, alive m);
          changes = \<lparr>born = a, survived = [], died = []\<rparr>
      in (changes, m\<lparr>grid := g, alive := a, raised := raised m @ [changes]\<rparr>))"

definition size :: "Model \<Rightarrow> int \<times> Model" where
  "size m = (int (length (grid m)), m)"

definition neighborsOf :: "Model \<Rightarrow> int \<Rightarrow> int list" where
  "neighborsOf m index =
     (let x = js_rem index (cols m);
          y = to_int32 (js_quot index (cols m))
      in [indexFor m (x - 1) (y - 1),
          indexFor m x (y - 1),
          indexFor m (x + 1) (y - 1),
          indexFor m (x - 1) y,
          indexFor m (x + 1) y,
          indexFor m (x - 1) (y + 1),
          indexFor m x (y + 1),
          indexFor m (x + 1) (y + 1)])"

definition nextFor :: "Model \<Rightarrow> int \<Rightarrow> int option" where
  \<comment> \<open>A number, or \<open>undefined\<close> when \<open>grid[index]\<close> is returned for an index outside
      the grid.\<close>
  "nextFor m index =
     (let g = grid m;
          neighbors = neighborsOf m index;
          count = js_add (js_add (js_add (js_add (js_add (js_add (js_add
                    (grid_read g (neighbors ! 0))
                    (grid_read g (neighbors ! 1)))
                    (grid_read g (neighbors ! 2)))
                    (grid_read g (neighbors ! 3)))
                    (grid_read g (neighbors ! 4)))
                    (grid_read g (neighbors ! 5)))
                    (grid_read g (neighbors ! 6)))
                    (grid_read g (neighbors ! 7))
      in if count = Some 3 then Some 1
         else if count = Some 2 then grid_read g index
         else Some 0)"

definition include_cell :: "int set \<times> int list \<Rightarrow> int \<Rightarrow> int set \<times> int list" where
  \<comment> \<open>\<open>if (!included[index]) { active.push(index); included[index] = true; }\<close>\<close>
  "include_cell st index =
     (case st of (included, active) \<Rightarrow>
        if index \<notin> included then (insert index included, active @ [index])
        else (included, active))"

definition activeCells :: "Model \<Rightarrow> int list" where
  "activeCells m =
     snd (foldl (\<lambda>st index. foldl include_cell (include_cell st index) (neighborsOf m index))
                ({}, []) (alive m))"

record Tally =
  t_alive :: "int list"
  t_born :: "int list"
  t_died :: "int list"
  t_survived :: "int list"

definition tally :: "Model \<Rightarrow> Tally \<Rightarrow> int \<Rightarrow> Tally" where
  \<comment> \<open>The body of the first loop of \<open>next\<close>, on the four lists it fills.\<close>
  "tally m t index =
     (let nxt = nextFor m index;
          current = grid_read (grid m) index;
          t1 = (if js_pos nxt then t\<lparr>t_alive := t_alive t @ [index]\<rparr> else t)
      in if current \<noteq> nxt then
           (if js_pos nxt then t1\<lparr>t_born := t_born t1 @ [index]\<rparr>
            else t1\<lparr>t_died := t_died t1 @ [index]\<rparr>)
         else if js_pos nxt then t1\<lparr>t_survived := t_survived t1 @ [index]\<rparr>
         else t1)"

definition "next" :: "Model \<Rightarrow> Changes \<times> Model" where
  "next m =
     (let active = activeCells m;
          t = foldl (tally m) \<lparr>t_alive = [], t_born = [], t_died = [], t_survived = []\<rparr> active;
          g1 = foldl (\<lambda>g i. grid_write g i 1) (grid m) (t_born t);
          g2 = foldl (\<lambda>g i. grid_write g i 0) g1 (t_died t);
          changes = \<lparr>born = t_born t, survived = t_survived t, died = t_died t\<rparr>
      in (changes, m\<lparr>grid := g2, alive := t_alive t, raised := raised m @ [changes]\<rparr>))"

section \<open>The event notifier: \<open>Signal\<close>\<close>

text \<open>
  A listener is a function object; \<open>indexOf\<close> compares listeners by identity, so a
  listener is modelled by a number naming it. The field \<open>listeners\<close> of a signal
  holds a reference to an array, and \<open>slice\<close>, \<open>push\<close> and \<open>splice\<close> act on arrays
  by reference: the arrays live in a store, a list of arrays addressed by position,
  where a new array is allocated at the end. \<open>push\<close> and \<open>splice\<close> update the array
  at an address in place, \<open>slice(0)\<close> allocates a copy.

  What a listener does when it is called is given by a table \<open>body\<close>: the taps and
  untaps it performs on the signal that called it. \<open>calls\<close> logs every
  \<open>l.apply(_this, args)\<close>, oldest first.
\<close>

type_synonym listener = nat
type_synonym ref = nat

datatype act = Tap listener | Untap listener

record 'a Signal =
  store :: "listener list list"
  listeners :: ref
  calls :: "(listener \<times> 'a) list"

definition array_at :: "listener list list \<Rightarrow> ref \<Rightarrow> listener list" where
  "array_at st a = (if a < length st then st ! a else [])"

definition slice0 :: "listener list list \<Rightarrow> ref \<Rightarrow> listener list list \<times> ref" where
  \<comment> \<open>\<open>xs.slice(0)\<close>: the store with a fresh copy, and the address of the copy.\<close>
  "slice0 st a = (st @ [array_at st a], length st)"

definition push :: "listener list list \<Rightarrow> ref \<Rightarrow> listener \<Rightarrow> listener list list" where
  "push st a l = st[a := array_at st a @ [l]]"

definition splice1 :: "listener list list \<Rightarrow> ref \<Rightarrow> nat \<Rightarrow> listener list list" where
  \<comment> \<open>\<open>xs.splice(ix, 1)\<close>\<close>
  "splice1 st a ix = st[a := take ix (array_at st a) @ drop (Suc ix) (array_at st a)]"

fun indexOf :: "listener list \<Rightarrow> listener \<Rightarrow> int" where
  "indexOf [] l = - 1"
| "indexOf (x # xs) l = (if x = l then 0 else (let ix = indexOf xs l in if ix = - 1 then - 1 else ix + 1))"

definition new_Signal :: "'a Signal" where
  "new_Signal = \<lparr>store = [[]], listeners = 0, calls = []\<rparr>"

definition tap :: "'a Signal \<Rightarrow> listener \<Rightarrow> 'a Signal" where
  "tap s l =
     (let (st, a) = slice0 (store s) (listeners s)
      in s\<lparr>store := push st a l, listeners := a\<rparr>)"

definition untap :: "'a Signal \<Rightarrow> listener \<Rightarrow> 'a Signal" where
  "untap s l =
     (let ix = indexOf (array_at (store s) (listeners s)) l
      in if ix = - 1 then s
         else (let (st, a) = slice0 (store s) (listeners s)
               in s\<lparr>store := splice1 st a (nat ix), listeners := a\<rparr>))"

definition perform :: "'a Signal \<Rightarrow> act \<Rightarrow> 'a Signal" where
  "perform s a = (case a of Tap l \<Rightarrow> tap s l | Untap l \<Rightarrow> untap s l)"

definition invoke :: "(listener \<Rightarrow> act list) \<Rightarrow> 'a \<Rightarrow> 'a Signal \<Rightarrow> listener \<Rightarrow> 'a Signal" where
  \<comment> \<open>\<open>l.apply(_this, args)\<close>: the call is logged, then the listener's body runs.\<close>
  "invoke body args s l = foldl perform (s\<lparr>calls := calls s @ [(l, args)]\<rparr>) (body l)"

fun forEach :: "(listener \<Rightarrow> act list) \<Rightarrow> 'a \<Rightarrow> ref \<Rightarrow> nat list \<Rightarrow> 'a Signal \<Rightarrow> 'a Signal" where
  \<comment> \<open>\<open>Array.prototype.forEach\<close> on the array at address \<open>a\<close>: the positions to visit
      are fixed when the loop starts, each element is read from the array as it is
      when its turn comes, and a position the array no longer has is skipped.\<close>
  "forEach body args a [] s = s"
| "forEach body args a (k # ks) s =
     (let xs = array_at (store s) a
      in if k < length xs then forEach body args a ks (invoke body args s (xs ! k))
         else forEach body args a ks s)"

definition raise :: "(listener \<Rightarrow> act list) \<Rightarrow> 'a Signal \<Rightarrow> 'a \<Rightarrow> 'a Signal" where
  "raise body s args =
     (let a = listeners s
      in forEach body args a [0..<length (array_at (store s) a)] s)"

section \<open>The messages and the compute host: \<open>life.msg.ts\<close>, \<open>work.js\<close>\<close>

datatype Msg =
  InitLifeMsg int int "int list"
| NeedSomeMsg int
| HereSomeMsg "Changes list"

text \<open>
  The host's state is the module variable \<open>model\<close>, \<open>undefined\<close> (\<open>None\<close>) until
  the first \<open>InitLife\<close>. A handler returns the messages it gave to \<open>postMessage\<close>
  and the new state, or the error it threw.
\<close>

definition initLife :: "int \<Rightarrow> Model option \<Rightarrow> int \<Rightarrow> int \<Rightarrow> int list \<Rightarrow> error + (Msg list \<times> Model option)" where
  "initLife lim h c r vals =
     (case new_Model lim c r of
        Inl e \<Rightarrow> Inl e
      | Inr m \<Rightarrow> (let (chg, m') = init m vals in Inr ([HereSomeMsg [chg]], Some m')))"

fun needSome_loop :: "nat \<Rightarrow> Model \<Rightarrow> Changes list \<Rightarrow> Changes list \<times> Model" where
  \<comment> \<open>The iterations of \<open>for (i = 0; i < msg.n; i++)\<close> still to run.\<close>
  "needSome_loop 0 m cs = (cs, m)"
| "needSome_loop (Suc k) m cs = (let (chg, m') = next m in needSome_loop k m' (cs @ [chg]))"

definition needSome :: "Model option \<Rightarrow> int \<Rightarrow> error + (Msg list \<times> Model option)" where
  \<comment> \<open>With no model yet, the first \<open>model.next()\<close> throws.\<close>
  "needSome h n =
     (if n \<le> 0 then Inr ([HereSomeMsg []], h)
      else (case h of
              None \<Rightarrow> Inl TypeError
            | Some m \<Rightarrow> (let (cs, m') = needSome_loop (nat n) m [] in Inr ([HereSomeMsg cs], Some m'))))"

definition host_onmessage :: "int \<Rightarrow> Model option \<Rightarrow> Msg \<Rightarrow> error + (Msg list \<times> Model option)" where
  "host_onmessage lim h msg =
     (case msg of
        InitLifeMsg c r vals \<Rightarrow> initLife lim h c r vals
      | NeedSomeMsg n \<Rightarrow> needSome h n
      | HereSomeMsg cs \<Rightarrow> Inr ([], h))"

section \<open>The client proxy: \<open>ModelInWorker\<close>\<close>

text \<open>
  The proxy's fields, with \<open>posted\<close> for the messages given to
  \<open>worker.postMessage\<close> and \<open>dispatched\<close> for the payloads of
  \<open>this.didChange.raise\<close>, both oldest first. The random board that
  \<open>randomize\<close> draws is a parameter.
\<close>

record ModelInWorker =
  wcols :: int
  wrows :: int
  changes :: "Changes list"
  lastChange :: Changes
  pendingRequests :: nat
  posted :: "Msg list"
  dispatched :: "Changes list"

definition arrive :: "ModelInWorker \<Rightarrow> Changes \<Rightarrow> ModelInWorker" where
  \<comment> \<open>The body of the loop of \<open>worker.onmessage\<close>.\<close>
  "arrive p chg =
     (if 0 < pendingRequests p
      then p\<lparr>dispatched := dispatched p @ [chg], pendingRequests := pendingRequests p - 1\<rparr>
      else p\<lparr>changes := changes p @ [chg]\<rparr>)"

definition onmessage :: "ModelInWorker \<Rightarrow> Msg \<Rightarrow> error + ModelInWorker" where
  \<comment> \<open>The handler reads \<open>msg.changes.length\<close>, which throws for a message without
      \<open>changes\<close>.\<close>
  "onmessage p msg =
     (case msg of
        HereSomeMsg cs \<Rightarrow> Inr (foldl arrive p cs)
      | _ \<Rightarrow> Inl TypeError)"

definition init_w :: "ModelInWorker \<Rightarrow> int list \<Rightarrow> ModelInWorker" where
  "init_w p vals =
     p\<lparr>posted := posted p @ [InitLifeMsg (wcols p) (wrows p) vals, NeedSomeMsg 20]\<rparr>"

definition new_ModelInWorker :: "int \<Rightarrow> int \<Rightarrow> int list \<Rightarrow> ModelInWorker" where
  "new_ModelInWorker c r vals =
     init_w \<lparr>wcols = c, wrows = r, changes = [],
             lastChange = \<lparr>born = [], survived = [], died = []\<rparr>,
             pendingRequests = 0, posted = [], dispatched = []\<rparr> vals"

definition randomize :: "ModelInWorker \<Rightarrow> int list \<Rightarrow> ModelInWorker" where
  "randomize p vals =
     (let lc = lastChange p;
          gone = born lc @ survived lc
      in init_w (p\<lparr>changes := [\<lparr>born = [], survived = [], died = gone\<rparr>]\<rparr>) vals)"

definition next_w :: "ModelInWorker \<Rightarrow> ModelInWorker" where
  "next_w p =
     (if length (changes p) = 0 then p\<lparr>pendingRequests := Suc (pendingRequests p)\<rparr>
      else (let chg = hd (changes p);
                p1 = p\<lparr>lastChange := chg, changes := tl (changes p),
                        dispatched := dispatched p @ [chg]\<rparr>
            in if length (changes p1) \<le> 2 then p1\<lparr>posted := posted p1 @ [NeedSomeMsg 20]\<rparr>
               else p1))"

section \<open>Notions of the specification\<close>

text \<open>
  The definitions of this section follow the specification's words, not the code:
  the toroidal index \<open>((rows + y) mod rows) * cols + ((cols + x) mod cols)\<close> with
  the mathematical \<open>mod\<close>, the eight toroidal neighbours of a cell, Conway's rule,
  and one synchronous generation of the whole grid.
\<close>

definition torus_index :: "int \<Rightarrow> int \<Rightarrow> int \<Rightarrow> int \<Rightarrow> int" where
  "torus_index c r x y = (y mod r) * c + (x mod c)"






definition wf :: "Model \<Rightarrow> bool" where
  "wf m \<longleftrightarrow> 0 < cols m \<and> 0 < rows m \<and> rows m \<le> 2147483648
      \<and> int (length (grid m)) = cols m * rows m
      \<and> (\<forall>v \<in> set (grid m). v = 0 \<or> v = 1)"


definition live_ok :: "Model \<Rightarrow> bool" where
  "live_ok m \<longleftrightarrow> set (alive m) = int ` {k \<in> {..<length (grid m)}. grid m ! k = 1}"





text \<open>
  The listeners a signal holds at a moment, and the relation between two stores in
  which every array of the first is still there, unchanged, in the second.
\<close>

definition current :: "'a Signal \<Rightarrow> listener list" where
  "current s = array_at (store s) (listeners s)"

definition keeps :: "'a Signal \<Rightarrow> 'a Signal \<Rightarrow> bool" where
  "keeps s s' \<longleftrightarrow> length (store s) \<le> length (store s')
     \<and> (\<forall>a < length (store s). store s' ! a = store s ! a)"

text \<open>
  The Change-Sets of the next \<open>k\<close> generations of an engine, in generation order,
  the engine after them, and a host serving a sequence of requests one after the
  other.
\<close>

fun gens :: "nat \<Rightarrow> Model \<Rightarrow> Changes list" where
  "gens 0 m = []"
| "gens (Suc k) m = fst (next m) # gens k (snd (next m))"

fun after :: "nat \<Rightarrow> Model \<Rightarrow> Model" where
  "after 0 m = m"
| "after (Suc k) m = after k (snd (next m))"

fun serve :: "int \<Rightarrow> Model option \<Rightarrow> Msg list \<Rightarrow> error + (Msg list \<times> Model option)" where
  "serve lim h [] = Inr ([], h)"
| "serve lim h (q # qs) =
     (case host_onmessage lim h q of
        Inl e \<Rightarrow> Inl e
      | Inr (out, h') \<Rightarrow>
          (case serve lim h' qs of Inl e \<Rightarrow> Inl e | Inr (out', h'') \<Rightarrow> Inr (out @ out', h'')))"







section \<open>Example states\<close>

definition limit31 :: int where
  \<comment> \<open>An engine that allocates typed arrays of up to \<open>2 ^ 31 - 1\<close> elements.\<close>
  "limit31 = 2147483647"

definition board3 :: Model where
  \<comment> \<open>A 3 by 3 board with one live cell, in the middle.\<close>
  "board3 = \<lparr>grid = [0,0,0, 0,1,0, 0,0,0], alive = [4], rows = 3, cols = 3, raised = []\<rparr>"

definition blinker5 :: Model where
  \<comment> \<open>A 5 by 5 board with a horizontal line of three live cells in the middle row.\<close>
  "blinker5 = \<lparr>grid = [0,0,0,0,0, 0,0,0,0,0, 0,1,1,1,0, 0,0,0,0,0, 0,0,0,0,0],
                alive = [11, 12, 13], rows = 5, cols = 5, raised = []\<rparr>"

definition fresh2 :: Model where
  \<comment> \<open>The engine \<open>new Model(2, 2)\<close>.\<close>
  "fresh2 = \<lparr>grid = [0,0,0,0], alive = [], rows = 2, cols = 2, raised = []\<rparr>"

definition fresh4 :: Model where
  \<comment> \<open>The engine \<open>new Model(4, 4)\<close>.\<close>
  "fresh4 = \<lparr>grid = [0,0,0,0, 0,0,0,0, 0,0,0,0, 0,0,0,0], alive = [], rows = 4, cols = 4,
              raised = []\<rparr>"

definition block_values :: "int list" where
  \<comment> \<open>A 2 by 2 block, a still life.\<close>
  "block_values = [0,0,0,0, 0,1,1,0, 0,1,1,0, 0,0,0,0]"

definition corner_values :: "int list" where
  "corner_values = [1,0,0,0, 0,0,0,0, 0,0,0,0, 0,0,0,0]"

definition block_engine :: Model where
  \<comment> \<open>\<open>new Model(4, 4)\<close> after \<open>init\<close> with the block and one \<open>next()\<close>.\<close>
  "block_engine = snd (next (snd (init fresh4 block_values)))"

definition untapper :: "listener \<Rightarrow> act list" where
  \<comment> \<open>Listener 1 removes listener 2 and registers listener 3 when it is called.\<close>
  "untapper l = (if l = 1 then [Untap 2, Tap 3] else [])"

definition two_listeners :: "string Signal" where
  "two_listeners = tap (tap new_Signal 1) 2"

definition proxy0 :: ModelInWorker where
  \<comment> \<open>A proxy just constructed for a 2 by 2 board with one live cell.\<close>
  "proxy0 = new_ModelInWorker 2 2 [1, 0, 0, 0]"

definition reply0 :: Msg where
  \<comment> \<open>The host's answer to the \<open>InitLife\<close> request that \<open>proxy0\<close> posted.\<close>
  "reply0 = HereSomeMsg [\<lparr>born = [0], survived = [], died = []\<rparr>]"

section \<open>Indexing on the torus\<close>

lemma js_rem_nonneg: "0 \<le> a \<Longrightarrow> 0 < b \<Longrightarrow> js_rem a b = a mod b"
  by (cases "a = 0") (simp_all add: js_rem_def)




lemma torus_index_range:
  assumes "0 < c" "0 < r"
  shows "0 \<le> torus_index c r x y \<and> torus_index c r x y < c * r"
proof -
  have x: "0 \<le> x mod c" "x mod c < c" using assms by simp_all
  have y: "0 \<le> y mod r" "y mod r \<le> r - 1" using assms by simp_all
  have "(y mod r) * c \<le> (r - 1) * c" using y assms by (intro mult_right_mono) simp_all
  then have "(y mod r) * c + x mod c < (r - 1) * c + c" using x by linarith
  also have "\<dots> = c * r" by (simp add: algebra_simps)
  finally show ?thesis using x y assms by (simp add: torus_index_def)
qed

lemma indexFor_torus:
  assumes "0 < cols m" "0 < rows m" "- cols m \<le> x" "- rows m \<le> y"
  shows "indexFor m x y = torus_index (cols m) (rows m) x y"
  using assms by (simp add: indexFor_def torus_index_def Let_def js_rem_nonneg)






lemma indexFor_one_wrap:
  assumes "0 < cols m" "0 < rows m" "- cols m \<le> x" "- rows m \<le> y"
  shows "indexFor m x y = indexFor m (x + cols m) y"
    and "indexFor m x y = indexFor m x (y + rows m)"
    and "0 \<le> indexFor m x y" and "indexFor m x y < cols m * rows m"
proof -
  have a: "indexFor m x y = torus_index (cols m) (rows m) x y"
    using assms by (rule indexFor_torus)
  have b: "indexFor m (x + cols m) y = torus_index (cols m) (rows m) (x + cols m) y"
    using assms by (intro indexFor_torus) simp_all
  have c: "indexFor m x (y + rows m) = torus_index (cols m) (rows m) x (y + rows m)"
    using assms by (intro indexFor_torus) simp_all
  show "indexFor m x y = indexFor m (x + cols m) y" unfolding a b by (simp add: torus_index_def)
  show "indexFor m x y = indexFor m x (y + rows m)" unfolding a c by (simp add: torus_index_def)
  show "0 \<le> indexFor m x y" "indexFor m x y < cols m * rows m"
    unfolding a using torus_index_range [OF assms(1,2)] by simp_all
qed

section \<open>The Active Region and the loops of \<open>next\<close>\<close>

lemma include_cell_inv:
  assumes "fst st = set (snd st)" "distinct (snd st)"
  shows "fst (include_cell st i) = set (snd (include_cell st i))
       \<and> distinct (snd (include_cell st i))
       \<and> set (snd (include_cell st i)) = insert i (set (snd st))"
  using assms by (cases st) (auto simp: include_cell_def)

lemma foldl_include_cell:
  assumes "fst st = set (snd st)" "distinct (snd st)"
  shows "fst (foldl include_cell st xs) = set (snd (foldl include_cell st xs))
       \<and> distinct (snd (foldl include_cell st xs))
       \<and> set (snd (foldl include_cell st xs)) = set (snd st) \<union> set xs"
  using assms
proof (induction xs arbitrary: st)
  case Nil
  then show ?case by simp
next
  case (Cons x xs)
  from include_cell_inv [OF Cons.prems, of x] Cons.IH [of "include_cell st x"]
  show ?case by auto
qed

lemma active_fold:
  fixes m :: Model and xs :: "int list"
  assumes "fst st = set (snd st)" "distinct (snd st)"
  defines "res \<equiv> foldl (\<lambda>st index. foldl include_cell (include_cell st index) (neighborsOf m index)) st xs"
  shows "fst res = set (snd res) \<and> distinct (snd res)
       \<and> set (snd res) = set (snd st) \<union> set xs \<union> (\<Union>i \<in> set xs. set (neighborsOf m i))"
  using assms(1,2) unfolding res_def
proof (induction xs arbitrary: st)
  case Nil
  then show ?case by simp
next
  case (Cons x xs)
  let ?st1 = "foldl include_cell (include_cell st x) (neighborsOf m x)"
  have a: "fst (include_cell st x) = set (snd (include_cell st x))" "distinct (snd (include_cell st x))"
    "set (snd (include_cell st x)) = insert x (set (snd st))"
    using include_cell_inv [OF Cons.prems, of x] by simp_all
  have b: "fst ?st1 = set (snd ?st1)" "distinct (snd ?st1)"
    "set (snd ?st1) = insert x (set (snd st)) \<union> set (neighborsOf m x)"
    using foldl_include_cell [OF a(1,2), of "neighborsOf m x"] a(3) by simp_all
  from Cons.IH [OF b(1,2)] b(3) show ?case by auto
qed


lemma distinct_activeCells: "distinct (activeCells m)"
  using active_fold [of "({}, [])" m "alive m"] by (simp add: activeCells_def)






section \<open>One call of \<open>next\<close> is one generation\<close>

















section \<open>The Change-Set of one generation\<close>






section \<open>Initialisation\<close>

lemma even_to_int32: "even (to_int32 v) \<longleftrightarrow> even v"
proof -
  have "even ((v + 2147483648) mod 4294967296) \<longleftrightarrow> even (v + 2147483648)"
    by (rule dvd_mod_iff) simp
  then show ?thesis by (simp add: to_int32_def)
qed

lemma low_bit: "to_int32 v AND 1 = v mod 2"
  by (simp add: and_one_eq even_to_int32 mod_2_eq_odd)

lemma length_init_each: "length (fst (init_each vals i (g, a))) = length g"
  by (induction vals arbitrary: i g a) (simp_all add: Let_def grid_write_def)

lemma nth_init_each:
  assumes "0 \<le> i" "k < length g"
  shows "fst (init_each vals i (g, a)) ! k =
           (if nat i \<le> k \<and> k < nat i + length vals then to_int32 (vals ! (k - nat i)) AND 1
            else g ! k)"
  using assms
proof (induction vals arbitrary: i g a)
  case Nil
  then show ?case by simp
next
  case (Cons v vs)
  let ?g1 = "grid_write g i (to_int32 v AND 1)"
  let ?a1 = "if 0 < to_int32 v AND 1 then a @ [i] else a"
  have l: "k < length ?g1" using Cons.prems by (simp add: grid_write_def)
  have i1: "0 \<le> i + 1" using Cons.prems by simp
  have "fst (init_each (v # vs) i (g, a)) ! k = fst (init_each vs (i + 1) (?g1, ?a1)) ! k"
    by (simp add: Let_def)
  also have "\<dots> = (if nat (i + 1) \<le> k \<and> k < nat (i + 1) + length vs
                    then to_int32 (vs ! (k - nat (i + 1))) AND 1 else ?g1 ! k)"
    by (rule Cons.IH [OF i1 l])
  also have "\<dots> = (if nat i \<le> k \<and> k < nat i + length (v # vs)
                    then to_int32 ((v # vs) ! (k - nat i)) AND 1 else g ! k)"
  proof (cases "k = nat i")
    case True
    have s: "nat (i + 1) = Suc (nat i)" using Cons.prems by simp
    have "i < int (length g)" using True Cons.prems by simp
    then have "?g1 ! k = to_int32 v AND 1" using True Cons.prems by (simp add: grid_write_def)
    then show ?thesis unfolding s using True by simp
  next
    case False
    then have "?g1 ! k = g ! k" using Cons.prems by (auto simp: grid_write_def)
    moreover have "nat (i + 1) = Suc (nat i)" using Cons.prems by simp
    ultimately show ?thesis using False by (auto simp: nth_Cons')
  qed
  finally show ?case .
qed

lemma snd_init_each:
  "snd (init_each vals i (g, a)) =
     a @ map (\<lambda>k. i + int k) (filter (\<lambda>k. 0 < to_int32 (vals ! k) AND 1) [0..<length vals])"
proof (induction vals arbitrary: i g a)
  case Nil
  then show ?case by simp
next
  case (Cons v vs)
  have up: "[0..<length (v # vs)] = 0 # map Suc [0..<length vs]"
    by (simp add: upt_conv_Cons map_Suc_upt del: upt_Suc)
  show ?case
    unfolding up by (simp add: Let_def Cons.IH filter_map o_def)
qed

lemma init_unfold:
  "init m vals =
     (\<lparr>born = snd (init_each vals 0 (grid m, alive m)), survived = [], died = []\<rparr>,
      m\<lparr>grid := fst (init_each vals 0 (grid m, alive m)),
        alive := snd (init_each vals 0 (grid m, alive m)),
        raised := raised m @ [\<lparr>born = snd (init_each vals 0 (grid m, alive m)), survived = [], died = []\<rparr>]\<rparr>)"
  by (simp add: init_def Let_def split: prod.splits)

lemma grid_init:
  "grid (snd (init m vals)) =
     map (\<lambda>v. to_int32 v AND 1) (take (length (grid m)) vals) @ drop (length vals) (grid m)"
proof (rule nth_equalityI)
  show "length (grid (snd (init m vals))) =
        length (map (\<lambda>v. to_int32 v AND 1) (take (length (grid m)) vals) @ drop (length vals) (grid m))"
    by (simp add: init_unfold length_init_each)
next
  fix k assume "k < length (grid (snd (init m vals)))"
  then have k: "k < length (grid m)" by (simp add: init_unfold length_init_each)
  have "grid (snd (init m vals)) ! k =
          (if k < length vals then to_int32 (vals ! k) AND 1 else grid m ! k)"
    using nth_init_each [of 0 k "grid m" vals "alive m"] k by (simp add: init_unfold)
  also have "\<dots> = (map (\<lambda>v. to_int32 v AND 1) (take (length (grid m)) vals) @ drop (length vals) (grid m)) ! k"
    using k by (auto simp: nth_append)
  finally show "grid (snd (init m vals)) ! k =
     (map (\<lambda>v. to_int32 v AND 1) (take (length (grid m)) vals) @ drop (length vals) (grid m)) ! k" .
qed

lemma grid_init_low_bits:
  "grid (snd (init m vals)) =
     map (\<lambda>v. v mod 2) (take (length (grid m)) vals) @ drop (length vals) (grid m)"
  by (simp add: grid_init low_bit)

lemma init_dims: "cols (snd (init m vals)) = cols m" "rows (snd (init m vals)) = rows m"
  by (simp_all add: init_unfold)

lemma initLife_answers:
  "0 \<le> c * r \<Longrightarrow> c * r \<le> lim \<Longrightarrow> c * r \<le> 9007199254740991
     \<Longrightarrow> \<exists>out h'. initLife lim h c r vals = Inr (out, h')"
  by (simp add: initLife_def new_Model_def split: prod.splits)

lemma initLife_throws:
  "c * r < 0 \<or> lim < c * r \<or> 9007199254740991 < c * r
     \<Longrightarrow> initLife lim h c r vals = Inl RangeError"
  by (auto simp: initLife_def new_Model_def)

lemma alive_init:
  "alive (snd (init m vals)) =
     alive m @ map int (filter (\<lambda>k. 0 < to_int32 (vals ! k) AND 1) [0..<length vals])"
  by (simp add: init_unfold snd_init_each)

lemma low_bit_pos: "0 < to_int32 v AND 1 \<longleftrightarrow> odd v"
  unfolding low_bit by presburger

lemma init_on_empty_live_set:
  assumes "alive m = []" "length vals = length (grid m)"
  shows "grid (snd (init m vals)) = map (\<lambda>v. v mod 2) vals"
    and "alive (snd (init m vals)) = map int (filter (\<lambda>k. odd (vals ! k)) [0..<length vals])"
    and "born (fst (init m vals)) = alive (snd (init m vals))"
    and "survived (fst (init m vals)) = []" and "died (fst (init m vals)) = []"
    and "live_ok (snd (init m vals))"
proof -
  show g: "grid (snd (init m vals)) = map (\<lambda>v. v mod 2) vals"
    using assms(2) by (simp add: grid_init_low_bits)
  show a: "alive (snd (init m vals)) = map int (filter (\<lambda>k. odd (vals ! k)) [0..<length vals])"
    using assms(1) by (simp add: alive_init low_bit_pos)
  show "born (fst (init m vals)) = alive (snd (init m vals))"
    "survived (fst (init m vals)) = []" "died (fst (init m vals)) = []"
    by (simp_all add: init_unfold)
  have "{k \<in> {..<length vals}. map (\<lambda>v. v mod 2) vals ! k = 1} = {k \<in> {..<length vals}. odd (vals ! k)}"
    by (auto simp: odd_iff_mod_2_eq_one)
  then show "live_ok (snd (init m vals))"
    unfolding live_ok_def g a by auto
qed

lemma init_new_Model:
  assumes "0 < c" "0 < r" "r \<le> 2147483648" "int (length vals) = c * r" "new_Model lim c r = Inr m"
  shows "wf (snd (init m vals)) \<and> live_ok (snd (init m vals))"
proof -
  have m: "m = \<lparr>grid = replicate (nat (c * r)) 0, alive = [], rows = r, cols = c, raised = []\<rparr>"
    using assms(5) by (simp add: new_Model_def split: if_splits)
  have e: "alive m = []" "length vals = length (grid m)" using assms(4) by (simp_all add: m)
  have "grid (snd (init m vals)) = map (\<lambda>v. v mod 2) vals"
    by (rule init_on_empty_live_set(1) [OF e])
  moreover have "cols (snd (init m vals)) = c" "rows (snd (init m vals)) = r"
    by (simp_all add: init_dims m)
  ultimately have "wf (snd (init m vals))" using assms(1-4) by (auto simp: wf_def)
  then show ?thesis using init_on_empty_live_set(6) [OF e] by simp
qed

section \<open>The signal\<close>

lemma keeps_refl: "keeps s s"
  by (simp add: keeps_def)

lemma keeps_trans: "keeps s s' \<Longrightarrow> keeps s' s'' \<Longrightarrow> keeps s s''"
  by (auto simp: keeps_def)

lemma tap_keeps: "keeps s (tap s l)"
  by (simp add: keeps_def tap_def slice0_def push_def nth_append)

lemma untap_keeps: "keeps s (untap s l)"
  by (simp add: keeps_def untap_def slice0_def splice1_def nth_append Let_def)

lemma tap_calls: "calls (tap s l) = calls s"
  by (simp add: tap_def slice0_def)

lemma untap_calls: "calls (untap s l) = calls s"
  by (simp add: untap_def slice0_def Let_def)

lemma current_tap: "current (tap s l) = current s @ [l]"
  by (simp add: current_def tap_def slice0_def push_def array_at_def)

lemma perform_keeps: "keeps s (perform s a)"
  by (cases a) (simp_all add: perform_def tap_keeps untap_keeps)

lemma perform_calls: "calls (perform s a) = calls s"
  by (cases a) (simp_all add: perform_def tap_calls untap_calls)

lemma foldl_perform: "keeps s (foldl perform s as) \<and> calls (foldl perform s as) = calls s"
proof (induction as arbitrary: s)
  case Nil
  show ?case by (simp add: keeps_refl)
next
  case (Cons a as)
  from Cons.IH [of "perform s a"] perform_keeps [of s a] perform_calls [of s a]
  show ?case by (auto intro: keeps_trans)
qed

lemma invoke_keeps: "keeps s (invoke body args s l)"
proof -
  have "keeps (s\<lparr>calls := calls s @ [(l, args)]\<rparr>) (invoke body args s l)"
    unfolding invoke_def using foldl_perform by blast
  then show ?thesis by (simp add: keeps_def)
qed

lemma invoke_calls: "calls (invoke body args s l) = calls s @ [(l, args)]"
  unfolding invoke_def using foldl_perform [of "s\<lparr>calls := calls s @ [(l, args)]\<rparr>" "body l"]
  by simp

lemma keeps_array: "keeps s s' \<Longrightarrow> a < length (store s) \<Longrightarrow> array_at (store s') a = array_at (store s) a"
  by (simp add: keeps_def array_at_def)

lemma forEach_calls:
  assumes "a < length (store s)" "\<forall>k \<in> set ks. k < length (array_at (store s) a)"
  shows "calls (forEach body args a ks s) = calls s @ map (\<lambda>k. (array_at (store s) a ! k, args)) ks"
  using assms
proof (induction ks arbitrary: s)
  case Nil
  then show ?case by simp
next
  case (Cons k ks)
  let ?xs = "array_at (store s) a"
  let ?s1 = "invoke body args s (?xs ! k)"
  have k: "k < length ?xs" using Cons.prems by simp
  have kp: "keeps s ?s1" by (rule invoke_keeps)
  have same: "array_at (store ?s1) a = ?xs" using keeps_array [OF kp Cons.prems(1)] .
  have a1: "a < length (store ?s1)" using kp Cons.prems(1) by (simp add: keeps_def)
  have ks1: "\<forall>j \<in> set ks. j < length (array_at (store ?s1) a)" using Cons.prems(2) same by simp
  have "calls (forEach body args a (k # ks) s) = calls (forEach body args a ks ?s1)"
    using k by (simp add: Let_def)
  also have "\<dots> = calls ?s1 @ map (\<lambda>j. (array_at (store ?s1) a ! j, args)) ks"
    by (rule Cons.IH [OF a1 ks1])
  also have "\<dots> = calls s @ map (\<lambda>j. (?xs ! j, args)) (k # ks)"
    by (simp add: same invoke_calls)
  finally show ?case .
qed

lemma map_over_positions: "map (\<lambda>k. f (xs ! k)) [0..<length xs] = map f xs"
proof -
  have "map f xs = map f (map ((!) xs) [0..<length xs])" by (simp only: map_nth)
  also have "\<dots> = map (\<lambda>k. f (xs ! k)) [0..<length xs]" by (simp only: map_map o_def)
  finally show ?thesis by simp
qed

lemma raise_calls: "calls (raise body s args) = calls s @ map (\<lambda>l. (l, args)) (current s)"
proof (cases "listeners s < length (store s)")
  case True
  have "calls (raise body s args) =
          calls s @ map (\<lambda>k. (current s ! k, args)) [0..<length (current s)]"
    unfolding raise_def Let_def current_def
    by (rule forEach_calls [OF True]) simp
  also have "map (\<lambda>k. (current s ! k, args)) [0..<length (current s)] = map (\<lambda>l. (l, args)) (current s)"
    by (rule map_over_positions)
  finally show ?thesis .
next
  case False
  then show ?thesis by (simp add: raise_def current_def array_at_def)
qed

section \<open>The compute host\<close>

lemma needSome_loop_gens:
  "needSome_loop k m cs = (cs @ gens k m, after k m)"
proof (induction k arbitrary: m cs)
  case 0
  show ?case by simp
next
  case (Suc k)
  show ?case by (simp add: Suc.IH split: prod.splits)
qed

lemma length_gens: "length (gens k m) = k"
  by (induction k arbitrary: m) simp_all

lemma gens_nth: "i < k \<Longrightarrow> gens k m ! i = fst (next (after i m))"
proof (induction k arbitrary: m i)
  case 0
  then show ?case by simp
next
  case (Suc k)
  show ?case
  proof (cases i)
    case 0
    then show ?thesis by simp
  next
    case (Suc j)
    then show ?thesis using Suc.prems Suc.IH [of j "snd (next m)"] by simp
  qed
qed

lemma needSome_gens:
  "needSome (Some m) n = Inr ([HereSomeMsg (gens (nat n) m)], Some (after (nat n) m))"
  by (simp add: needSome_def needSome_loop_gens)

lemma serve_ones:
  "serve lim (Some m) (replicate k (NeedSomeMsg 1)) =
     Inr (map (\<lambda>c. HereSomeMsg [c]) (gens k m), Some (after k m))"
proof (induction k arbitrary: m)
  case 0
  show ?case by simp
next
  case (Suc k)
  have one: "host_onmessage lim (Some m) (NeedSomeMsg 1) = Inr ([HereSomeMsg [fst (next m)]], Some (snd (next m)))"
    using needSome_gens [of m 1] by (simp add: host_onmessage_def)
  show ?case by (simp add: one Suc.IH)
qed

section \<open>The client proxy\<close>

lemma arrive_fields:
  "wcols (arrive p c) = wcols p" "wrows (arrive p c) = wrows p"
  "lastChange (arrive p c) = lastChange p" "posted (arrive p c) = posted p"
  by (simp_all add: arrive_def)

lemma foldl_arrive:
  "dispatched (foldl arrive p cs) = dispatched p @ take (pendingRequests p) cs
   \<and> changes (foldl arrive p cs) = changes p @ drop (pendingRequests p) cs
   \<and> pendingRequests (foldl arrive p cs) = pendingRequests p - length cs
   \<and> posted (foldl arrive p cs) = posted p
   \<and> lastChange (foldl arrive p cs) = lastChange p"
proof (induction cs arbitrary: p)
  case Nil
  show ?case by simp
next
  case (Cons c cs)
  show ?case
  proof (cases "pendingRequests p")
    case 0
    then show ?thesis using Cons.IH [of "arrive p c"] by (simp add: arrive_def)
  next
    case (Suc n)
    then show ?thesis using Cons.IH [of "arrive p c"] by (simp add: arrive_def)
  qed
qed

lemma randomize_fields:
  "changes (randomize p vals) = [\<lparr>born = [], survived = [], died = born (lastChange p) @ survived (lastChange p)\<rparr>]"
  "pendingRequests (randomize p vals) = pendingRequests p"
  "dispatched (randomize p vals) = dispatched p"
  "lastChange (randomize p vals) = lastChange p"
  "posted (randomize p vals) = posted p @ [InitLifeMsg (wcols p) (wrows p) vals, NeedSomeMsg 20]"
  by (simp_all add: randomize_def init_w_def Let_def)

section \<open>The blinker\<close>















section \<open>The claims\<close>

subsection \<open>The simulation engine\<close>



text \<open>
  Claim C3, at a failing input. \<open>init\<close> pushes onto the Live-Set it finds and
  never empties it. On the engine \<open>new Model(4, 4)\<close>, initialised with a 2 by 2
  block and advanced by one generation, a second \<open>init\<close> with a single live cell
  at index 0 overwrites the grid, but leaves the Live-Set, and \<open>born\<close> of the
  returned Change-Set, with the four block indices in front of 0.
\<close>

theorem init_again_keeps_old_live_set:
  "new_Model limit31 4 4 = Inr fresh4
   \<and> alive block_engine = [5, 6, 9, 10]
   \<and> grid (snd (init block_engine corner_values)) = corner_values
   \<and> alive (snd (init block_engine corner_values)) = [5, 6, 9, 10, 0]
   \<and> born (fst (init block_engine corner_values)) = [5, 6, 9, 10, 0]"
  by code_simp

text \<open>
  Claim C4 as stated fails: \<open>init\<close> with a sequence of the wrong length is not
  rejected. On \<open>new Model(2, 2)\<close>, \<open>init([1])\<close> returns normally and has written
  the first cell.
\<close>

theorem short_init_not_rejected:
  "int (length [1 :: int]) \<noteq> cols fresh2 * rows fresh2
   \<and> grid (snd (init fresh2 [1])) = [1, 0, 0, 0]
   \<and> snd (init fresh2 [1]) \<noteq> fresh2"
  by code_simp

text \<open>
  Claim C4, amended. \<open>init\<close> checks no length and rejects nothing: for values of
  any length it overwrites the first \<open>min (length values) (length grid)\<close> cells with
  the low bits of the values and leaves the other cells and the dimensions as they
  were; called on an empty Live-Set, it leaves as Live-Set the positions of the odd
  values, in order, whether or not the grid has a cell there. The host's
  \<open>initLife\<close> throws exactly when the constructor does, for a \<open>cols * rows\<close> that
  is negative, above \<open>2 ^ 53 - 1\<close> or above the largest length the engine
  allocates, and answers every other request, whatever the length of the values.
\<close>

theorem init_overwrites_prefix:
  "grid (snd (init m vals)) = map (\<lambda>v. v mod 2) (take (length (grid m)) vals) @ drop (length vals) (grid m)
   \<and> cols (snd (init m vals)) = cols m \<and> rows (snd (init m vals)) = rows m
   \<and> (alive m = [] \<longrightarrow>
        alive (snd (init m vals)) = map int (filter (\<lambda>k. odd (vals ! k)) [0..<length vals]))
   \<and> (0 \<le> c * r \<and> c * r \<le> lim \<and> c * r \<le> 9007199254740991
        \<longrightarrow> (\<exists>out h'. initLife lim h c r vals = Inr (out, h')))
   \<and> (c * r < 0 \<or> lim < c * r \<or> 9007199254740991 < c * r
        \<longrightarrow> initLife lim h c r vals = Inl RangeError)"
  using initLife_answers [of c r lim h vals] initLife_throws [of c r lim h vals]
  by (simp add: grid_init_low_bits init_dims alive_init low_bit_pos)

theorem init_overwrites_prefix_witness:
  "(0 :: int) \<le> 2 * 2 \<and> (2 :: int) * 2 \<le> limit31 \<and> (2 :: int) * 2 \<le> 9007199254740991
   \<and> alive fresh2 = []
   \<and> grid (snd (init fresh2 [1])) = [1, 0, 0, 0]
   \<and> alive (snd (init fresh2 [1, 0, 0, 0, 1])) = [0, 4]
   \<and> (\<exists>out h'. initLife limit31 None 2 2 [1] = Inr (out, h'))
   \<and> limit31 < 134217728 * 134217728
   \<and> initLife limit31 None 134217728 134217728 [1] = Inl RangeError"
proof -
  have a: "alive fresh2 = []" "length (grid fresh2) = 4" by (simp_all add: fresh2_def)
  have l: "(2 :: int) * 2 \<le> limit31" "limit31 < 134217728 * 134217728"
    by (simp_all add: limit31_def)
  have e: "map int (filter (\<lambda>k. odd ([1, 0, 0, 0, 1 :: int] ! k)) [0..<length [1, 0, 0, 0, 1 :: int]]) = [0, 4]"
    by code_simp
  have g: "map (\<lambda>v. v mod 2) (take 4 [1 :: int]) @ drop (length [1 :: int]) (grid fresh2) = [1, 0, 0, 0]"
    by (simp add: fresh2_def)
  from init_overwrites_prefix [of fresh2 "[1]" 2 2 limit31 None]
  have r1: "grid (snd (init fresh2 [1])) = [1, 0, 0, 0]"
    and r2: "\<exists>out h'. initLife limit31 None 2 2 [1] = Inr (out, h')"
    using a l g by simp_all
  from init_overwrites_prefix [of fresh2 "[1, 0, 0, 0, 1]" 134217728 134217728 limit31 None]
  have r3: "alive (snd (init fresh2 [1, 0, 0, 0, 1])) = [0, 4]" using a e by simp
  from init_overwrites_prefix [of fresh2 "[1]" 134217728 134217728 limit31 None]
  have r4: "initLife limit31 None 134217728 134217728 [1] = Inl RangeError" using l by simp
  show ?thesis using a(1) l r1 r2 r3 r4 by simp
qed

text \<open>
  Claim C5, at a failing input. \<open>indexFor\<close> adds one period before \<open>%\<close>, and
  JavaScript's \<open>%\<close> keeps the sign of the dividend, so a column more than \<open>cols\<close>
  to the left of 0 is not normalised: on a 3 by 3 board \<open>indexFor(-4, 0)\<close> is
  \<open>-1\<close>, outside \<open>[0, 9)\<close>, while \<open>indexFor(-4 + 3, 0)\<close> is 2.
\<close>

theorem indexFor_far_negative:
  "indexFor board3 (- 4) 0 = - 1 \<and> indexFor board3 (- 4 + cols board3) 0 = 2"
  by (simp add: board3_def indexFor_def js_rem_def)






text \<open>
  Claim C10. \<open>get(index)\<close> leaves the engine as it was for every index, and for an
  index outside \<open>[0, size())\<close> it returns false: the read of the typed array gives
  \<open>undefined\<close>, which is not greater than 0, and nothing is thrown.
\<close>

theorem get_outside_is_dead:
  "snd (get m index) = m
   \<and> (\<not> (0 \<le> index \<and> index < fst (size m)) \<longrightarrow> fst (get m index) = False)"
  by (simp add: get_def size_def grid_read_def js_pos_def)

theorem get_outside_is_dead_witness:
  "\<not> (0 \<le> (9 :: int) \<and> 9 < fst (size board3)) \<and> fst (get board3 9) = False
   \<and> snd (get board3 9) = board3
   \<and> \<not> (0 \<le> (- 1 :: int) \<and> - 1 < fst (size board3)) \<and> fst (get board3 (- 1)) = False"
  using get_outside_is_dead [of board3 9] get_outside_is_dead [of board3 "- 1"]
  by (simp add: board3_def size_def)

subsection \<open>The event notifier\<close>

text \<open>
  Claim C9. \<open>raise\<close> calls exactly the listeners registered when it starts, once
  each, in the order of registration (\<open>tap\<close> appends at the end), each with the
  arguments of the \<open>raise\<close>, whatever taps and untaps the listeners perform on the
  signal meanwhile: \<open>tap\<close> and \<open>untap\<close> work on a fresh copy and leave every
  array that existed before, the one being iterated among them, unchanged.
\<close>

theorem raise_calls_snapshot:
  "calls (raise body s args) = calls s @ map (\<lambda>l. (l, args)) (current s)
   \<and> current (tap s l) = current s @ [l]
   \<and> keeps s (tap s l) \<and> keeps s (untap s l)"
  by (simp add: raise_calls current_tap tap_keeps untap_keeps)

theorem raise_calls_snapshot_witness:
  "current two_listeners = [1, 2]
   \<and> calls (raise untapper two_listeners ''go'') = [(1, ''go''), (2, ''go'')]
   \<and> current (raise untapper two_listeners ''go'') = [1, 3]
   \<and> 0 < length (store two_listeners)
   \<and> store (untap two_listeners 2) ! 0 = store two_listeners ! 0"
proof -
  have c: "current two_listeners = [1, 2]" "calls two_listeners = []"
    "0 < length (store two_listeners)"
    "current (raise untapper two_listeners ''go'') = [1, 3]"
    by code_simp+
  have "keeps two_listeners (untap two_listeners 2)"
    "calls (raise untapper two_listeners ''go'')
       = calls two_listeners @ map (\<lambda>l. (l, ''go'')) (current two_listeners)"
    using raise_calls_snapshot [of untapper two_listeners "''go''" 2] by simp_all
  then show ?thesis using c by (simp add: keeps_def)
qed

subsection \<open>The compute host\<close>

text \<open>
  Claim C8. A \<open>NeedSome\<close> request for \<open>n\<close> generations is answered by a single
  \<open>HereSome\<close> message holding exactly \<open>n\<close> Change-Sets, the \<open>i\<close>-th being the one
  that \<open>next()\<close> returns on the engine advanced \<open>i\<close> times; and one request for 5
  generations yields the same five Change-Sets in the same order, and the same
  engine, as five requests for 1 generation each.
\<close>

theorem batch_equivalence:
  "needSome (Some m) n = Inr ([HereSomeMsg (gens (nat n) m)], Some (after (nat n) m))
   \<and> length (gens (nat n) m) = nat n
   \<and> (\<forall>i < nat n. gens (nat n) m ! i = fst (next (after i m)))
   \<and> serve lim (Some m) [NeedSomeMsg 5] = Inr ([HereSomeMsg (gens 5 m)], Some (after 5 m))
   \<and> serve lim (Some m) (replicate 5 (NeedSomeMsg 1))
        = Inr (map (\<lambda>c. HereSomeMsg [c]) (gens 5 m), Some (after 5 m))"
  using needSome_gens [of m 5] serve_ones [of lim m 5]
  by (simp add: needSome_gens length_gens gens_nth host_onmessage_def)

theorem batch_equivalence_witness:
  "(1 :: nat) < nat 2
   \<and> gens (nat 2) blinker5 ! 1 = fst (next (after 1 blinker5))
   \<and> length (gens (nat 2) blinker5) = 2
   \<and> serve limit31 (Some blinker5) [NeedSomeMsg 5]
        = Inr ([HereSomeMsg (gens 5 blinker5)], Some (after 5 blinker5))"
  using batch_equivalence [of blinker5 2 limit31] by simp

subsection \<open>The client proxy\<close>

text \<open>
  Claim C2 as stated fails: the proxy has no epoch and drops nothing. A proxy is
  constructed for a board with one live cell and posts its \<open>InitLife\<close> request;
  the host answers with the Change-Set of that board; \<open>randomize()\<close> is called
  before the answer arrives. The answer, computed for the board before the reset,
  is appended to the buffer queue behind the wipe, and the next two \<open>next()\<close> calls
  deliver the wipe and then that stale Change-Set to the listeners.
\<close>

theorem stale_response_is_buffered:
  "posted proxy0 = [InitLifeMsg 2 2 [1, 0, 0, 0], NeedSomeMsg 20]
   \<and> map_sum id fst (host_onmessage limit31 None (InitLifeMsg 2 2 [1, 0, 0, 0])) = Inr [reply0]
   \<and> map_sum id changes (onmessage (randomize proxy0 [0, 0, 0, 1]) reply0)
        = Inr [\<lparr>born = [], survived = [], died = []\<rparr>, \<lparr>born = [0], survived = [], died = []\<rparr>]
   \<and> map_sum id (dispatched \<circ> next_w \<circ> next_w) (onmessage (randomize proxy0 [0, 0, 0, 1]) reply0)
        = Inr [\<lparr>born = [], survived = [], died = []\<rparr>, \<lparr>born = [0], survived = [], died = []\<rparr>]"
  by code_simp

text \<open>
  Claim C2, amended. After \<open>randomize()\<close> the buffer queue holds the synthetic wipe
  Change-Set alone, and a \<open>HereSome\<close> message that arrives then, whichever
  configuration it was computed for, is handled like any other: its first
  Change-Sets, as many as there are pending pulls, are delivered to the listeners,
  and the others are appended to the buffer queue behind the wipe.
\<close>

theorem response_after_randomize:
  "\<exists>p'. onmessage (randomize p vals) (HereSomeMsg cs) = Inr p'
     \<and> dispatched p' = dispatched p @ take (pendingRequests p) cs
     \<and> changes p' = \<lparr>born = [], survived = [], died = born (lastChange p) @ survived (lastChange p)\<rparr>
                      # drop (pendingRequests p) cs
     \<and> pendingRequests p' = pendingRequests p - length cs"
  by (simp add: onmessage_def foldl_arrive randomize_fields)

end
